theory Spec2Isabelle
  imports Main "HOL-Library.Word" "HOL-Library.Sublist"
begin

section \<open>Strings\<close>

text \<open>
  A JavaScript string is a sequence of 16-bit code units. Tag and attribute names stay
  Isabelle strings (they are only compared with constants); text and attribute values are
  code-unit lists, so that \<open>trim\<close> sees every white-space character of the language.
\<close>

type_synonym jsstring = "16 word list"

definition js :: "string \<Rightarrow> jsstring" where
  "js s = map (\<lambda>c. of_nat (of_char c)) s"

text \<open>WhiteSpace and LineTerminator of ECMAScript, the characters \<open>String.prototype.trim\<close> strips.\<close>

definition isWhite :: "16 word \<Rightarrow> bool" where
  "isWhite c \<longleftrightarrow>
     c = 0x09 \<or> c = 0x0A \<or> c = 0x0B \<or> c = 0x0C \<or> c = 0x0D \<or> c = 0x20 \<or> c = 0xA0 \<or>
     c = 0x1680 \<or> (0x2000 \<le> c \<and> c \<le> 0x200A) \<or> c = 0x2028 \<or> c = 0x2029 \<or>
     c = 0x202F \<or> c = 0x205F \<or> c = 0x3000 \<or> c = 0xFEFF"

definition trim :: "jsstring \<Rightarrow> jsstring" where
  "trim s = rev (dropWhile isWhite (rev (dropWhile isWhite s)))"

text \<open>
  \<open>s.replace(pat, rep)\<close> with a string pattern: the first occurrence of \<open>pat\<close>, scanning from
  the left, is replaced; later occurrences stay.
\<close>

fun replace :: "'a list \<Rightarrow> 'a list \<Rightarrow> 'a list \<Rightarrow> 'a list" where
  "replace pat rep [] = (if pat = [] then rep else [])"
| "replace pat rep (c # cs) =
     (if prefix pat (c # cs) then rep @ drop (length pat) (c # cs)
      else c # replace pat rep cs)"

text \<open>\<open>s.includes(pat)\<close>, as the repository's test uses it on the style.\<close>

fun includesStr :: "'a list \<Rightarrow> 'a list \<Rightarrow> bool" where
  "includesStr pat [] = (pat = [])"
| "includesStr pat (c # cs) = (prefix pat (c # cs) \<or> includesStr pat cs)"

section \<open>The document tree\<close>

datatype node =
    Element string "(string \<times> jsstring) list" "node list"
  | Text jsstring
  | Comment jsstring

fun childNodes :: "node \<Rightarrow> node list" where
  "childNodes (Element t a cs) = cs"
| "childNodes _ = []"

definition isElement :: "node \<Rightarrow> bool" where
  "isElement n = (case n of Element t a cs \<Rightarrow> True | _ \<Rightarrow> False)"

definition isTag :: "string \<Rightarrow> node \<Rightarrow> bool" where
  "isTag t n = (case n of Element t' a cs \<Rightarrow> t' = t | _ \<Rightarrow> False)"

definition getAttribute :: "string \<Rightarrow> node \<Rightarrow> jsstring option" where
  "getAttribute name n = (case n of Element t a cs \<Rightarrow> map_of a name | _ \<Rightarrow> None)"

definition hasAttribute :: "string \<Rightarrow> node \<Rightarrow> bool" where
  "hasAttribute name n = (getAttribute name n \<noteq> None)"

fun setAttr :: "string \<Rightarrow> jsstring \<Rightarrow> (string \<times> jsstring) list \<Rightarrow> (string \<times> jsstring) list" where
  "setAttr name v [] = [(name, v)]"
| "setAttr name v ((k, w) # a) = (if k = name then (k, v) # a else (k, w) # setAttr name v a)"

fun setAttribute :: "string \<Rightarrow> jsstring \<Rightarrow> node \<Rightarrow> node" where
  "setAttribute name v (Element t a cs) = Element t (setAttr name v a) cs"
| "setAttribute name v n = n"

text \<open>
  \<open>textContent\<close> of an element: the data of its Text descendants, in tree order. A comment
  below the element adds nothing to it.
\<close>

fun textContent :: "node \<Rightarrow> jsstring" where
  "textContent (Text s) = s"
| "textContent (Comment s) = []"
| "textContent (Element t a cs) = concat (map textContent cs)"

text \<open>
  \<open>querySelector\<close> returns the first descendant in tree order that matches, never the
  element itself. \<open>findFirst\<close> is the pre-order search that includes the node it starts at.
\<close>

fun findFirst :: "(node \<Rightarrow> bool) \<Rightarrow> node \<Rightarrow> node option"
  and findFirstIn :: "(node \<Rightarrow> bool) \<Rightarrow> node list \<Rightarrow> node option" where
  "findFirst p (Element t a cs) =
     (if p (Element t a cs) then Some (Element t a cs) else findFirstIn p cs)"
| "findFirst p (Text s) = (if p (Text s) then Some (Text s) else None)"
| "findFirst p (Comment s) = (if p (Comment s) then Some (Comment s) else None)"
| "findFirstIn p [] = None"
| "findFirstIn p (c # cs) =
     (case findFirst p c of Some x \<Rightarrow> Some x | None \<Rightarrow> findFirstIn p cs)"

definition querySelector :: "(node \<Rightarrow> bool) \<Rightarrow> node \<Rightarrow> node option" where
  "querySelector p n = findFirstIn p (childNodes n)"

text \<open>
  The script holds references to the nodes it found and mutates them in place. In the tree,
  a mutation of the first match of a selector is written back at the place the search found it.
\<close>

fun modifyFirst :: "(node \<Rightarrow> bool) \<Rightarrow> (node \<Rightarrow> node) \<Rightarrow> node \<Rightarrow> node"
  and modifyFirstIn :: "(node \<Rightarrow> bool) \<Rightarrow> (node \<Rightarrow> node) \<Rightarrow> node list \<Rightarrow> node list" where
  "modifyFirst p f (Element t a cs) =
     (if p (Element t a cs) then f (Element t a cs) else Element t a (modifyFirstIn p f cs))"
| "modifyFirst p f (Text s) = (if p (Text s) then f (Text s) else Text s)"
| "modifyFirst p f (Comment s) = (if p (Comment s) then f (Comment s) else Comment s)"
| "modifyFirstIn p f [] = []"
| "modifyFirstIn p f (c # cs) =
     (case findFirst p c of Some x \<Rightarrow> modifyFirst p f c # cs
      | None \<Rightarrow> c # modifyFirstIn p f cs)"

fun modifyDescendant :: "(node \<Rightarrow> bool) \<Rightarrow> (node \<Rightarrow> node) \<Rightarrow> node \<Rightarrow> node" where
  "modifyDescendant p f (Element t a cs) = Element t a (modifyFirstIn p f cs)"
| "modifyDescendant p f n = n"

text \<open>The selectors of the script.\<close>

definition tbodySel :: "node \<Rightarrow> bool" where
  "tbodySel = isTag ''tbody''"

definition spanSel :: "node \<Rightarrow> bool" where
  "spanSel n \<longleftrightarrow> isTag ''span'' n \<and> getAttribute ''aria-hidden'' n = Some (js ''true'')"

text \<open>\<open>tbody.rows\<close> and \<open>row.cells\<close>: the \<open>tr\<close> children, the \<open>td\<close> and \<open>th\<close> children.\<close>

definition isRow :: "node \<Rightarrow> bool" where
  "isRow = isTag ''tr''"

definition isCell :: "node \<Rightarrow> bool" where
  "isCell n \<longleftrightarrow> isTag ''td'' n \<or> isTag ''th'' n"

definition rows :: "node \<Rightarrow> node list" where
  "rows tbody = filter isRow (childNodes tbody)"

definition cells :: "node \<Rightarrow> node list" where
  "cells row = filter isCell (childNodes row)"

text \<open>\<open>table.dataset.weekMondayCorrected\<close> is the attribute \<open>data-week-monday-corrected\<close>.\<close>

definition markerAttr :: string where
  "markerAttr = ''data-week-monday-corrected''"

definition corrected :: "node \<Rightarrow> bool" where
  "corrected table \<longleftrightarrow> getAttribute markerAttr table = Some (js ''true'')"

section \<open>DOM mutations used by the realigner\<close>

text \<open>
  The four numbered steps of the \<open>try\<close> block. Each one ends in a call into the host's DOM
  (\<open>appendChild\<close>, \<open>deleteCell\<close>, \<open>setAttribute\<close>, the \<open>dataset\<close> setter) that may raise.
\<close>

datatype step = Relocate | DeleteCell | StyleEdit | Mark

datatype exn = TypeError | IndexSizeError | HostError step

text \<open>
  The host is not part of the repository. Which of its mutating calls raise is a parameter:
  \<open>h s\<close> holds when the host call of step \<open>s\<close> raises. A standard DOM raises in none of
  them on the calls the script makes.
\<close>

type_synonym host = "step \<Rightarrow> bool"

definition hostOK :: host where
  "hostOK = (\<lambda>s. False)"

text \<open>
  \<open>tbody.appendChild(firstRow)\<close>, where \<open>firstRow\<close> is \<open>tbody.rows[0]\<close>: the first \<open>tr\<close> child
  leaves its place and becomes the last child.
\<close>

fun moveFirstRowToEnd :: "node list \<Rightarrow> node list" where
  "moveFirstRowToEnd [] = []"
| "moveFirstRowToEnd (c # cs) = (if isRow c then cs @ [c] else c # moveFirstRowToEnd cs)"

fun appendChildFirstRow :: "node \<Rightarrow> node" where
  "appendChildFirstRow (Element t a cs) = Element t a (moveFirstRowToEnd cs)"
| "appendChildFirstRow n = n"

text \<open>Writing back to \<open>tbody.rows[tbody.rows.length - 1]\<close>: the last \<open>tr\<close> child.\<close>

fun modifyLastWhere :: "('a \<Rightarrow> bool) \<Rightarrow> ('a \<Rightarrow> 'a) \<Rightarrow> 'a list \<Rightarrow> 'a list" where
  "modifyLastWhere p f [] = []"
| "modifyLastWhere p f (x # xs) =
     (if p x \<and> \<not> list_ex p xs then f x # xs else x # modifyLastWhere p f xs)"

fun modifyLastRow :: "(node \<Rightarrow> node) \<Rightarrow> node \<Rightarrow> node" where
  "modifyLastRow f (Element t a cs) = Element t a (modifyLastWhere isRow f cs)"
| "modifyLastRow f n = n"

text \<open>Writing back to \<open>row.cells[0]\<close>: the first cell child.\<close>

fun modifyFirstWhere :: "('a \<Rightarrow> bool) \<Rightarrow> ('a \<Rightarrow> 'a) \<Rightarrow> 'a list \<Rightarrow> 'a list" where
  "modifyFirstWhere p f [] = []"
| "modifyFirstWhere p f (x # xs) = (if p x then f x # xs else x # modifyFirstWhere p f xs)"

fun modifyCell0 :: "(node \<Rightarrow> node) \<Rightarrow> node \<Rightarrow> node" where
  "modifyCell0 f (Element t a cs) = Element t a (modifyFirstWhere isCell f cs)"
| "modifyCell0 f n = n"

text \<open>
  \<open>row.deleteCell(i)\<close> for \<open>i \<ge> 0\<close>: the cell at index \<open>i\<close> of \<open>row.cells\<close> is removed from the
  row's children; an index that is not below the number of cells raises IndexSizeError.
\<close>

fun removeNthWhere :: "('a \<Rightarrow> bool) \<Rightarrow> nat \<Rightarrow> 'a list \<Rightarrow> 'a list" where
  "removeNthWhere p i [] = []"
| "removeNthWhere p i (x # xs) =
     (if p x then (case i of 0 \<Rightarrow> xs | Suc j \<Rightarrow> x # removeNthWhere p j xs)
      else x # removeNthWhere p i xs)"

definition deleteCell :: "nat \<Rightarrow> node \<Rightarrow> exn + node" where
  "deleteCell i row =
     (case row of
        Element t a cs \<Rightarrow>
          if i < length (cells row) then Inr (Element t a (removeNthWhere isCell i cs))
          else Inl IndexSizeError
      | _ \<Rightarrow> Inl TypeError)"

section \<open>The realigner: startWeekOnMonday\<close>

text \<open>
  \<open>newLastRow\<close> is read through the references the script holds: the first \<open>tbody\<close> below the
  table, and the last of its rows, \<open>undefined\<close> when it has no row.
\<close>

definition newLastRow :: "node \<Rightarrow> node option" where
  "newLastRow table =
     (case querySelector tbodySel table of
        None \<Rightarrow> None
      | Some tbody \<Rightarrow> (case rows tbody of [] \<Rightarrow> None | r # rs \<Rightarrow> Some (last (r # rs))))"

definition modifyNewLastRow :: "(node \<Rightarrow> node) \<Rightarrow> node \<Rightarrow> node" where
  "modifyNewLastRow f table = modifyDescendant tbodySel (modifyLastRow f) table"

text \<open>
  A step returns the table after it and the host mutations it made, or the exception it
  raised, in which case it changed nothing.
\<close>

definition relocate :: "host \<Rightarrow> node \<Rightarrow> exn + node \<times> step list" where
  "relocate h table =
     (if h Relocate then Inl (HostError Relocate)
      else Inr (modifyDescendant tbodySel appendChildFirstRow table, [Relocate]))"

definition shiftCells :: "host \<Rightarrow> node \<Rightarrow> exn + node \<times> step list" where
  "shiftCells h table =
     (case newLastRow table of
        None \<Rightarrow> Inl TypeError
      | Some row \<Rightarrow>
          if length (cells row) > 1 then
            (if h DeleteCell then Inl (HostError DeleteCell)
             else (case deleteCell 1 row of
                     Inl e \<Rightarrow> Inl e
                   | Inr row' \<Rightarrow> Inr (modifyNewLastRow (\<lambda>r. row') table, [DeleteCell])))
          else Inr (table, []))"

definition fixLabel :: "host \<Rightarrow> node \<Rightarrow> exn + node \<times> step list" where
  "fixLabel h table =
     (case newLastRow table of
        None \<Rightarrow> Inl TypeError
      | Some row \<Rightarrow>
          (case cells row of
             [] \<Rightarrow> Inl TypeError
           | cell0 # others \<Rightarrow>
               (case querySelector spanSel cell0 of
                  None \<Rightarrow> Inr (table, [])
                | Some sunLabel \<Rightarrow>
                    if hasAttribute ''style'' sunLabel then
                      (case getAttribute ''style'' sunLabel of
                         None \<Rightarrow> Inl TypeError
                       | Some currentStyle \<Rightarrow>
                           let newStyle = replace (js ''Circle(0)'') (js ''None'') currentStyle in
                           if h StyleEdit then Inl (HostError StyleEdit)
                           else Inr (modifyNewLastRow
                                       (modifyCell0
                                          (modifyDescendant spanSel
                                             (setAttribute ''style'' newStyle)))
                                       table,
                                     [StyleEdit]))
                    else Inr (table, []))))"

definition mark :: "host \<Rightarrow> node \<Rightarrow> exn + node \<times> step list" where
  "mark h table =
     (if h Mark then Inl (HostError Mark)
      else Inr (setAttribute markerAttr (js ''true'') table, [Mark]))"

text \<open>
  The \<open>try\<close> block runs the steps in order on the table as the steps before left it. It returns
  the table, the host mutations made and the exception that ended it, if any.
\<close>

definition tryBlock :: "host \<Rightarrow> node \<Rightarrow> node \<times> step list \<times> exn option" where
  "tryBlock h table =
     (case relocate h table of
        Inl e \<Rightarrow> (table, [], Some e)
      | Inr (t1, m1) \<Rightarrow>
          (case shiftCells h t1 of
             Inl e \<Rightarrow> (t1, m1, Some e)
           | Inr (t2, m2) \<Rightarrow>
               (case fixLabel h t2 of
                  Inl e \<Rightarrow> (t2, m1 @ m2, Some e)
                | Inr (t3, m3) \<Rightarrow>
                    (case mark h t3 of
                       Inl e \<Rightarrow> (t3, m1 @ m2 @ m3, Some e)
                     | Inr (t4, m4) \<Rightarrow> (t4, m1 @ m2 @ m3 @ m4, None)))))"

text \<open>
  What one invocation leaves: the table, the lines written with \<open>console.error\<close>, an
  exception that left the function, and the host mutations made.
\<close>

record outcome =
  dom :: node
  console :: "(string \<times> exn) list"
  escaped :: "exn option"
  mutations :: "step list"

definition returned :: "node \<Rightarrow> outcome" where
  "returned table = \<lparr>dom = table, console = [], escaped = None, mutations = []\<rparr>"

definition threw :: "node \<Rightarrow> exn \<Rightarrow> outcome" where
  "threw table e = \<lparr>dom = table, console = [], escaped = Some e, mutations = []\<rparr>"

definition errorPrefix :: string where
  "errorPrefix = ''[Contribution Graph Realignment] Error during mutation:''"

text \<open>
  The guards stand before the \<open>try\<close> block, so an exception there would leave the function.
  Reading a property of \<open>undefined\<close> raises a TypeError: \<open>table.dataset\<close> on a node that is not
  an element, \<open>firstRow.cells\<close> when \<open>tbody.rows[0]\<close> is \<open>undefined\<close>, \<open>labelCell.querySelector\<close>
  when \<open>firstRow.cells[0]\<close> is. These are the \<open>threw\<close> branches.
\<close>

definition startWeekOnMonday :: "host \<Rightarrow> node \<Rightarrow> outcome" where
  "startWeekOnMonday h table =
     (if \<not> isElement table then threw table TypeError
      else if corrected table then returned table
      else
        (case querySelector tbodySel table of
           None \<Rightarrow> returned table
         | Some tbody \<Rightarrow>
             if length (rows tbody) \<noteq> 7 then returned table
             else
               (case rows tbody of
                  [] \<Rightarrow> threw table TypeError
                | firstRow # laterRows \<Rightarrow>
                    if length (cells firstRow) < 2 then returned table
                    else
                      (case cells firstRow of
                         [] \<Rightarrow> threw table TypeError
                       | labelCell # dataCells \<Rightarrow>
                           (case querySelector spanSel labelCell of
                              None \<Rightarrow> returned table
                            | Some labelSpan \<Rightarrow>
                                if trim (textContent labelSpan) \<noteq> js ''Sun'' then returned table
                                else
                                  (case tryBlock h table of
                                     (table', ms, None) \<Rightarrow>
                                       \<lparr>dom = table', console = [], escaped = None,
                                        mutations = ms\<rparr>
                                   | (table', ms, Some err) \<Rightarrow>
                                       \<lparr>dom = table', console = [(errorPrefix, err)],
                                        escaped = None, mutations = ms\<rparr>))))))"

section \<open>The table of the repository's test\<close>

definition daySpan :: "string \<Rightarrow> jsstring \<Rightarrow> node" where
  "daySpan day style =
     Element ''span'' [(''aria-hidden'', js ''true''), (''style'', style)] [Text (js day)]"

definition dataCell :: "string \<Rightarrow> node" where
  "dataCell v = Element ''td'' [] [Text (js v)]"

definition dayRow :: "string \<Rightarrow> jsstring \<Rightarrow> node" where
  "dayRow day style =
     Element ''tr'' [] [Element ''td'' [] [daySpan day style], dataCell ''1'', dataCell ''2'']"

definition hiddenStyle :: jsstring where
  "hiddenStyle = js ''clip-path: Circle(0); position: absolute;''"

definition shownStyle :: jsstring where
  "shownStyle = js ''clip-path: None; position: absolute;''"

definition tableOf :: "node list \<Rightarrow> node" where
  "tableOf rs = Element ''table'' [] [Element ''tbody'' [] rs]"

definition createTestTable :: node where
  "createTestTable =
     tableOf (dayRow ''Sun'' hiddenStyle #
              map (\<lambda>d. dayRow d shownStyle) [''Mon'', ''Tue'', ''Wed'', ''Thu'', ''Fri'', ''Sat''])"

section \<open>The guards, as predicates\<close>

text \<open>
  The day label of a row as the fourth guard reads it: the trimmed text of the first
  \<open>span[aria-hidden="true"]\<close> below the row's first cell, if there is one.
\<close>

definition rowLabel :: "node \<Rightarrow> jsstring option" where
  "rowLabel row =
     (case cells row of
        [] \<Rightarrow> None
      | labelCell # dataCells \<Rightarrow>
          (case querySelector spanSel labelCell of
             None \<Rightarrow> None
           | Some labelSpan \<Rightarrow> Some (trim (textContent labelSpan))))"

definition row0 :: "node \<Rightarrow> node option" where
  "row0 tbody = (case rows tbody of [] \<Rightarrow> None | r # rs \<Rightarrow> Some r)"

text \<open>Guards 3 and 4 on a row: at least two cells, and the label \<open>Sun\<close>.\<close>

definition sundayRow :: "node \<Rightarrow> bool" where
  "sundayRow row \<longleftrightarrow> 2 \<le> length (cells row) \<and> rowLabel row = Some (js ''Sun'')"

text \<open>All four guards: the invocation reaches the \<open>try\<close> block.\<close>

definition guardsPass :: "node \<Rightarrow> bool" where
  "guardsPass table \<longleftrightarrow>
     isElement table \<and> \<not> corrected table \<and>
     (case querySelector tbodySel table of
        None \<Rightarrow> False
      | Some tbody \<Rightarrow>
          length (rows tbody) = 7 \<and>
          (case row0 tbody of None \<Rightarrow> False | Some r \<Rightarrow> sundayRow r))"

text \<open>Selectors that look at the tag and the attributes of an element only.\<close>

definition shallow :: "(node \<Rightarrow> bool) \<Rightarrow> bool" where
  "shallow p \<longleftrightarrow> (\<forall>t a cs cs'. p (Element t a cs) = p (Element t a cs'))"

text \<open>Tables with fewer and more rows than a week, and one that starts on Monday.\<close>

definition weekdays :: "string list" where
  "weekdays = [''Mon'', ''Tue'', ''Wed'', ''Thu'', ''Fri'', ''Sat'']"

definition sixRowTable :: node where
  "sixRowTable = tableOf (dayRow ''Sun'' hiddenStyle # map (\<lambda>d. dayRow d shownStyle) (take 5 weekdays))"

definition eightRowTable :: node where
  "eightRowTable =
     tableOf (dayRow ''Sun'' hiddenStyle # map (\<lambda>d. dayRow d shownStyle) (weekdays @ [''Sun'']))"

definition mondayFirstTable :: node where
  "mondayFirstTable = tableOf (map (\<lambda>d. dayRow d shownStyle) (weekdays @ [''Sun'']))"

definition shortRowTable :: node where
  "shortRowTable =
     tableOf (Element ''tr'' [] [Element ''td'' [] [daySpan ''Sun'' hiddenStyle]] #
              map (\<lambda>d. dayRow d shownStyle) weekdays)"

section \<open>Reading the grid\<close>

text \<open>The rows of the grid as the script reads them: \<open>table.querySelector('tbody').rows\<close>.\<close>

definition gridRows :: "node \<Rightarrow> node list" where
  "gridRows table =
     (case querySelector tbodySel table of None \<Rightarrow> [] | Some tbody \<Rightarrow> rows tbody)"

text \<open>The day marker of a row, \<open>row.cells[0].querySelector('span[aria-hidden="true"]')\<close>, and its style.\<close>

definition labelMarker :: "node \<Rightarrow> node option" where
  "labelMarker row = (case cells row of [] \<Rightarrow> None | c # ds \<Rightarrow> querySelector spanSel c)"

definition labelStyle :: "node \<Rightarrow> jsstring option" where
  "labelStyle row =
     (case labelMarker row of None \<Rightarrow> None | Some sp \<Rightarrow> getAttribute ''style'' sp)"

text \<open>
  The table has its first \<open>tbody\<close> with the rows \<open>rs\<close> followed by \<open>r\<close>: the state after
  the relocation, \<open>r\<close> being the moved row.
\<close>

definition shape :: "node \<Rightarrow> node list \<Rightarrow> node \<Rightarrow> bool" where
  "shape table rs r \<longleftrightarrow>
     (\<exists>tbody. querySelector tbodySel table = Some tbody \<and> rows tbody = rs @ [r])"

text \<open>The label cell as step 3 leaves it: only the style of its day marker is rewritten.\<close>

definition fixedLabelCell :: "node \<Rightarrow> node" where
  "fixedLabelCell c =
     (case querySelector spanSel c of
        None \<Rightarrow> c
      | Some sp \<Rightarrow>
          (case getAttribute ''style'' sp of
             None \<Rightarrow> c
           | Some st \<Rightarrow>
               modifyDescendant spanSel
                 (setAttribute ''style'' (replace (js ''Circle(0)'') (js ''None'') st)) c))"


section \<open>Repeated invocations and further tables\<close>

text \<open>A host whose call in step \<open>s\<close> raises, and no other.\<close>

definition failAt :: "step \<Rightarrow> host" where
  "failAt s = (\<lambda>s'. s' = s)"





definition oneCellTable :: node where
  "oneCellTable = tableOf [Element ''tr'' [] [Element ''td'' [] []]]"


definition twoClipStyle :: jsstring where
  "twoClipStyle = js ''clip-path: Circle(0); -webkit-clip-path: Circle(0);''"

definition twoClipTable :: node where
  "twoClipTable = tableOf (dayRow ''Sun'' twoClipStyle # map (\<lambda>d. dayRow d shownStyle) weekdays)"


section \<open>The change watcher\<close>

text \<open>
  The repository holds the content script twice: \<open>src/extension/content.js\<close> and the unnamed
  \<open>part_000\<close>. \<open>startWeekOnMonday\<close> and \<open>handleMutations\<close> are the same in both; \<open>debounce\<close>,
  the observer callback and \<open>observeTable\<close> differ, and take the variant as a parameter.
\<close>

datatype variant = ContentJs | Part0

datatype mutationType = ChildList | Attributes | CharacterData

text \<open>
  The callbacks handed to \<open>setTimeout\<close>: the \<open>later\<close> closure of the debounced handler with
  the given index, and the give-up function of \<open>part_000\<close>.
\<close>

datatype callback = Later nat | GiveUp

text \<open>
  The state the watcher runs in. \<open>timers\<close> are the pending timers (identifier, due time in
  milliseconds, callback), in the order they were set. \<open>debouncers\<close> holds the \<open>timeout\<close>
  variable of each closure \<open>debounce\<close> has returned. \<open>observers\<close> are the MutationObservers
  created, each with the debounced handler its callback calls and whether it is connected.
  \<open>grid\<close> is what \<open>document.querySelector('.ContributionCalendar-grid')\<close> returns.
  \<open>attempts\<close> records every run of \<open>handleMutations\<close> and whether it found a table; the
  script does not read it.
\<close>

record world =
  now :: nat
  timers :: "(nat \<times> nat \<times> callback) list"
  nextTimer :: nat
  debouncers :: "nat option list"
  observers :: "(nat \<times> bool) list"
  activeObserver :: "nat option"
  grid :: "node option"
  consoleLog :: "(string \<times> exn) list"
  uncaught :: "exn list"
  attempts :: "bool list"

definition setTimeout :: "callback \<Rightarrow> nat \<Rightarrow> world \<Rightarrow> nat \<times> world" where
  "setTimeout cb delay w =
     (nextTimer w,
      w\<lparr>timers := timers w @ [(nextTimer w, now w + delay, cb)], nextTimer := Suc (nextTimer w)\<rparr>)"

text \<open>\<open>clearTimeout(undefined)\<close> does nothing.\<close>

definition clearTimeout :: "nat option \<Rightarrow> world \<Rightarrow> world" where
  "clearTimeout t w =
     (case t of
        None \<Rightarrow> w
      | Some i \<Rightarrow> w\<lparr>timers := filter (\<lambda>(j, due, cb). j \<noteq> i) (timers w)\<rparr>)"

definition handleMutations :: "host \<Rightarrow> world \<Rightarrow> world" where
  "handleMutations h w =
     (case grid w of
        None \<Rightarrow> w\<lparr>attempts := attempts w @ [False]\<rparr>
      | Some table \<Rightarrow>
          let out = startWeekOnMonday h table in
          w\<lparr>grid := Some (dom out),
            consoleLog := consoleLog w @ console out,
            uncaught := uncaught w @ (case escaped out of None \<Rightarrow> [] | Some e \<Rightarrow> [e]),
            attempts := attempts w @ [True]\<rparr>)"

text \<open>
  \<open>debounce(func, wait)\<close> returns a closure over a fresh \<open>timeout\<close> variable. The only \<open>func\<close>
  of the script is \<open>handleMutations\<close>. \<open>executedFunction\<close> is the closure's body; \<open>later\<close> is
  what its timer runs: in \<open>content.js\<close> it clears \<open>timeout\<close> first, in \<open>part_000\<close> it does not.
\<close>

definition timeoutOf :: "nat \<Rightarrow> world \<Rightarrow> nat option" where
  "timeoutOf k w = (if k < length (debouncers w) then debouncers w ! k else None)"

definition debounce :: "world \<Rightarrow> nat \<times> world" where
  "debounce w = (length (debouncers w), w\<lparr>debouncers := debouncers w @ [None]\<rparr>)"

definition executedFunction :: "nat \<Rightarrow> nat \<Rightarrow> world \<Rightarrow> world" where
  "executedFunction wait k w =
     (let w1 = clearTimeout (timeoutOf k w) w;
          (i, w2) = setTimeout (Later k) wait w1
      in w2\<lparr>debouncers := (debouncers w2)[k := Some i]\<rparr>)"

definition later :: "variant \<Rightarrow> host \<Rightarrow> nat \<Rightarrow> world \<Rightarrow> world" where
  "later v h k w =
     (case v of
        ContentJs \<Rightarrow> handleMutations h (clearTimeout (timeoutOf k w) w)
      | Part0 \<Rightarrow> handleMutations h w)"

text \<open>
  The give-up function of \<open>part_000\<close>:
  \<open>if (activeObserver && !document.querySelector(...)) { disconnect; activeObserver = null }\<close>.
\<close>

definition disconnect :: "nat \<Rightarrow> world \<Rightarrow> world" where
  "disconnect ob w =
     w\<lparr>observers := (if ob < length (observers w)
                       then (observers w)[ob := (fst (observers w ! ob), False)]
                       else observers w)\<rparr>"

definition giveUp :: "world \<Rightarrow> world" where
  "giveUp w =
     (case activeObserver w of
        None \<Rightarrow> w
      | Some ob \<Rightarrow>
          if grid w = None then (disconnect ob w)\<lparr>activeObserver := None\<rparr> else w)"

definition runCallback :: "variant \<Rightarrow> host \<Rightarrow> callback \<Rightarrow> world \<Rightarrow> world" where
  "runCallback v h cb w = (case cb of Later k \<Rightarrow> later v h k w | GiveUp \<Rightarrow> giveUp w)"

text \<open>
  Time passing. The pending timer with the least due time fires first, the one set earlier
  among equals; it leaves the pending timers and its callback runs at its due time. This
  repeats until no pending timer is due by the target time.
\<close>

fun earliest :: "(nat \<times> nat \<times> callback) list \<Rightarrow> (nat \<times> nat \<times> callback) option" where
  "earliest [] = None"
| "earliest ((i, due, cb) # ts) =
     (case earliest ts of
        None \<Rightarrow> Some (i, due, cb)
      | Some (j, due', cb') \<Rightarrow> if due' < due then Some (j, due', cb') else Some (i, due, cb))"

definition nextDue :: "nat \<Rightarrow> world \<Rightarrow> (nat \<times> nat \<times> callback) option" where
  "nextDue target w = earliest (filter (\<lambda>(i, due, cb). due \<le> target) (timers w))"

definition fire :: "variant \<Rightarrow> host \<Rightarrow> nat \<times> nat \<times> callback \<Rightarrow> world \<Rightarrow> world" where
  "fire v h t w =
     (case t of
        (i, due, cb) \<Rightarrow>
          runCallback v h cb
            (w\<lparr>now := max (now w) due, timers := filter (\<lambda>(j, d, c). j \<noteq> i) (timers w)\<rparr>))"

text \<open>No callback of the script sets a timer, so every firing leaves fewer pending timers.\<close>

lemma earliest_mem: "earliest ts = Some t \<Longrightarrow> t \<in> set ts"
  by (induction ts arbitrary: t rule: earliest.induct) (auto split: option.splits if_splits)

lemma nextDue_mem: "nextDue target w = Some t \<Longrightarrow> t \<in> set (timers w)"
  by (auto simp: nextDue_def dest: earliest_mem)

lemma length_filter_mem:
  "(i, d, c) \<in> set ts \<Longrightarrow> length (filter (\<lambda>(j, d, c). j \<noteq> i) ts) < length ts"
  by (induction ts) (auto simp: less_Suc_eq_le)

lemma timers_handleMutations [simp]: "timers (handleMutations h w) = timers w"
  by (simp add: handleMutations_def Let_def split: option.splits)

lemma timers_runCallback: "length (timers (runCallback v h cb w)) \<le> length (timers w)"
  by (auto simp: runCallback_def later_def giveUp_def clearTimeout_def disconnect_def
        split: callback.splits variant.splits option.splits)

lemma fire_decreases:
  "nextDue target w = Some t \<Longrightarrow> length (timers (fire v h t w)) < length (timers w)"
proof -
  assume "nextDue target w = Some t"
  then have m: "t \<in> set (timers w)" by (rule nextDue_mem)
  obtain i d c where t: "t = (i, d, c)" by (cases t)
  with m have "length (filter (\<lambda>(j, d, c). j \<noteq> i) (timers w)) < length (timers w)"
    by (auto intro: length_filter_mem)
  moreover have "length (timers (fire v h t w)) \<le> length (filter (\<lambda>(j, d, c). j \<noteq> i) (timers w))"
    using timers_runCallback [of v h c
       "w\<lparr>now := max (now w) d, timers := filter (\<lambda>(j, d, c). j \<noteq> i) (timers w)\<rparr>"]
    by (simp add: fire_def t)
  ultimately show ?thesis by simp
qed

function elapseTo :: "variant \<Rightarrow> host \<Rightarrow> nat \<Rightarrow> world \<Rightarrow> world" where
  "elapseTo v h target w =
     (case nextDue target w of
        None \<Rightarrow> w\<lparr>now := max (now w) target\<rparr>
      | Some t \<Rightarrow> elapseTo v h target (fire v h t w))"
  by pat_completeness auto
termination
  by (relation "measure (\<lambda>(v, h, target, w). length (timers w))") (auto intro: fire_decreases)

declare elapseTo.simps [simp del]

text \<open>
  The observer callback. \<open>content.js\<close> calls the debounced handler when a record of the batch
  is of type \<open>childList\<close>; \<open>part_000\<close> calls it on every batch. A batch goes to every connected
  observer.
\<close>

definition debounceWait :: nat where
  "debounceWait = 50"

definition giveUpDelay :: nat where
  "giveUpDelay = 5000"

definition observerCallback :: "variant \<Rightarrow> nat \<Rightarrow> mutationType list \<Rightarrow> world \<Rightarrow> world" where
  "observerCallback v k records w =
     (case v of
        ContentJs \<Rightarrow>
          if list_ex (\<lambda>m. m = ChildList) records then executedFunction debounceWait k w else w
      | Part0 \<Rightarrow> executedFunction debounceWait k w)"

fun notify :: "variant \<Rightarrow> mutationType list \<Rightarrow> (nat \<times> bool) list \<Rightarrow> world \<Rightarrow> world" where
  "notify v records [] w = w"
| "notify v records ((k, connected) # obs) w =
     notify v records obs (if connected then observerCallback v k records w else w)"

definition deliver :: "variant \<Rightarrow> mutationType list \<Rightarrow> world \<Rightarrow> world" where
  "deliver v records w = notify v records (observers w) w"

text \<open>\<open>new MutationObserver(callback)\<close> followed by \<open>observe(document.body, ...)\<close>.\<close>

definition observe :: "nat \<Rightarrow> world \<Rightarrow> nat \<times> world" where
  "observe k w = (length (observers w), w\<lparr>observers := observers w @ [(k, True)]\<rparr>)"

definition observeTable :: "variant \<Rightarrow> host \<Rightarrow> world \<Rightarrow> world" where
  "observeTable v h w =
     (case v of
        ContentJs \<Rightarrow>
          (let w1 = handleMutations h w;
               (debouncedHandler, w2) = debounce w1;
               (observer, w3) = observe debouncedHandler w2
           in w3)
      | Part0 \<Rightarrow>
          if activeObserver w \<noteq> None then w
          else
            (let w1 = handleMutations h w;
                 (debouncedHandler, w2) = debounce w1;
                 (observer, w3) = observe debouncedHandler w2;
                 w4 = w3\<lparr>activeObserver := Some observer\<rparr>;
                 (t, w5) = setTimeout GiveUp giveUpDelay w4
             in w5))"

text \<open>The page as the script finds it when it is loaded, with the grid it holds, if any.\<close>

definition loaded :: "node option \<Rightarrow> world" where
  "loaded g =
     \<lparr>now = 0, timers = [], nextTimer = 0, debouncers = [], observers = [],
      activeObserver = None, grid = g, consoleLog = [], uncaught = [], attempts = []\<rparr>"

definition subscriptions :: "world \<Rightarrow> nat" where
  "subscriptions w = length (filter snd (observers w))"

text \<open>
  What happens to the page: a batch of mutation records is delivered, time passes, the page
  renders another grid or none, \<open>observeTable\<close> is called (by \<open>main\<close>, or by the \<open>popstate\<close>
  listener of \<open>part_000\<close>). Batches are inputs, whoever changed the page, the script
  included.
\<close>

datatype event = Notify "mutationType list" | Elapse nat | Render "node option" | Start

definition react :: "variant \<Rightarrow> host \<Rightarrow> event \<Rightarrow> world \<Rightarrow> world" where
  "react v h e w =
     (case e of
        Notify records \<Rightarrow> deliver v records w
      | Elapse d \<Rightarrow> elapseTo v h (now w + d) w
      | Render g \<Rightarrow> w\<lparr>grid := g\<rparr>
      | Start \<Rightarrow> observeTable v h w)"




text \<open>
  Timer identifiers are distinct and below the next one to be given. \<open>pendingChecks\<close> are the
  pending timers of debounced handlers, \<open>giveUps\<close> the pending give-up timers.
\<close>

definition timersOK :: "world \<Rightarrow> bool" where
  "timersOK w \<longleftrightarrow> distinct (map fst (timers w)) \<and> (\<forall>t \<in> set (timers w). fst t < nextTimer w)"

definition pendingChecks :: "world \<Rightarrow> (nat \<times> nat \<times> callback) list" where
  "pendingChecks w = filter (\<lambda>t. snd (snd t) \<noteq> GiveUp) (timers w)"

definition giveUps :: "world \<Rightarrow> (nat \<times> nat \<times> callback) list" where
  "giveUps w = filter (\<lambda>t. snd (snd t) = GiveUp) (timers w)"


definition armed :: "nat \<Rightarrow> nat \<Rightarrow> world \<Rightarrow> bool" where
  "armed k due w \<longleftrightarrow>
     timersOK w \<and> k < length (debouncers w) \<and>
     (\<exists>i. pendingChecks w = [(i, due, Later k)] \<and> timeoutOf k w = Some i)"

text \<open>
  \<open>tidy w\<close>: the \<open>timeout\<close> variables hold identifiers already given. \<open>watching T w\<close>: a watcher
  of \<open>part_000\<close> is active and its give-up timer, due at \<open>T\<close>, is the only one pending.
\<close>

definition tidy :: "world \<Rightarrow> bool" where
  "tidy w \<longleftrightarrow> timersOK w \<and> (\<forall>i. Some i \<in> set (debouncers w) \<longrightarrow> i < nextTimer w)"

definition watching :: "nat \<Rightarrow> world \<Rightarrow> bool" where
  "watching T w \<longleftrightarrow>
     tidy w \<and> activeObserver w \<noteq> None \<and>
     (\<exists>gid. giveUps w = [(gid, T, GiveUp)] \<and> Some gid \<notin> set (debouncers w))"

text \<open>
  Three histories of \<open>part_000\<close>: a watcher just started on the test table; a page whose grid
  is found at the start and removed before the five seconds are over; a page whose grid
  appears 10 ms before they are over.
\<close>

definition started :: world where
  "started = observeTable Part0 hostOK (loaded (Some createTestTable))"




section \<open>Searching and writing back\<close>

lemma shallowD: "shallow p \<Longrightarrow> p (Element t a cs) = p (Element t a cs')"
  unfolding shallow_def by blast

lemma shallow_tbodySel: "shallow tbodySel"
  by (simp add: shallow_def tbodySel_def isTag_def)

lemma shallow_spanSel: "shallow spanSel"
  by (simp add: shallow_def spanSel_def isTag_def getAttribute_def)

lemma findFirst_sat:
  "findFirst p n = Some x \<Longrightarrow> p x"
  "findFirstIn p cs = Some x \<Longrightarrow> p x"
  by (induction p n and p cs rule: findFirst_findFirstIn.induct)
     (auto split: if_splits option.splits)

lemma modifyFirst_none:
  "findFirst p n = None \<Longrightarrow> modifyFirst p f n = n"
  "findFirstIn p cs = None \<Longrightarrow> modifyFirstIn p f cs = cs"
  by (induction p n and p cs rule: findFirst_findFirstIn.induct)
     (auto split: if_splits option.splits)

lemma findFirst_self: "p y \<Longrightarrow> findFirst p y = Some y"
  by (cases y) auto

lemma findFirst_modifyFirst:
  "shallow p \<Longrightarrow> findFirst p n = Some x \<Longrightarrow> p (f x) \<Longrightarrow>
     findFirst p (modifyFirst p f n) = Some (f x)"
  "shallow p \<Longrightarrow> findFirstIn p cs = Some x \<Longrightarrow> p (f x) \<Longrightarrow>
     findFirstIn p (modifyFirstIn p f cs) = Some (f x)"
proof (induction p n and p cs arbitrary: x and x rule: findFirst_findFirstIn.induct)
  case (1 p t a cs)
  show ?case
  proof (cases "p (Element t a cs)")
    case True
    with 1 have "x = Element t a cs" by simp
    with True 1 show ?thesis by (simp add: findFirst_self)
  next
    case False
    with "1.prems"(1) have "\<not> p (Element t a (modifyFirstIn p f cs))"
      using shallowD by blast
    with 1 False show ?thesis by simp
  qed
next
  case (5 p c cs)
  then show ?case by (auto split: option.splits)
qed (auto split: if_splits simp: findFirst_self)

section \<open>The steps of the try block\<close>

lemma filter_moveFirstRowToEnd:
  "filter isRow cs = r # rs \<Longrightarrow> filter isRow (moveFirstRowToEnd cs) = rs @ [r]"
  by (induction cs) (auto split: if_splits)

lemma filter_modifyLastWhere:
  "filter p xs = ys @ [y] \<Longrightarrow> p (f y) \<Longrightarrow> filter p (modifyLastWhere p f xs) = ys @ [f y]"
proof (induction xs arbitrary: ys)
  case Nil
  then show ?case by simp
next
  case (Cons x xs)
  show ?case
  proof (cases "p x")
    case False
    with Cons show ?thesis by simp
  next
    case True
    show ?thesis
    proof (cases "list_ex p xs")
      case True
      then have ne: "filter p xs \<noteq> []" by (simp add: list_ex_iff filter_empty_conv)
      with Cons.prems \<open>p x\<close> obtain ys' where ys: "ys = x # ys'" "filter p xs = ys' @ [y]"
        by (cases ys) auto
      with Cons.IH [OF ys(2) Cons.prems(2)] True \<open>p x\<close> show ?thesis by simp
    next
      case False
      then have "filter p xs = []" by (simp add: list_ex_iff filter_empty_conv)
      with Cons.prems \<open>p x\<close> False show ?thesis by simp
    qed
  qed
qed

lemma filter_modifyFirstWhere:
  "filter p xs = y # ys \<Longrightarrow> p (f y) \<Longrightarrow> filter p (modifyFirstWhere p f xs) = f y # ys"
  by (induction xs) (auto split: if_splits)

lemma filter_removeNthWhere:
  "filter p (removeNthWhere p i xs) = take i (filter p xs) @ drop (Suc i) (filter p xs)"
  by (induction xs arbitrary: i) (auto split: nat.splits)

lemma tbodySel_appendChildFirstRow: "tbodySel tb \<Longrightarrow> tbodySel (appendChildFirstRow tb)"
  by (cases tb) (auto simp: tbodySel_def isTag_def)

lemma rows_appendChildFirstRow:
  "rows tb = r # rs \<Longrightarrow> rows (appendChildFirstRow tb) = rs @ [r]"
  by (cases tb) (auto simp: rows_def filter_moveFirstRowToEnd)

lemma tbodySel_modifyLastRow: "tbodySel tb \<Longrightarrow> tbodySel (modifyLastRow f tb)"
  by (cases tb) (auto simp: tbodySel_def isTag_def)

lemma rows_modifyLastRow:
  "rows tb = rs @ [r] \<Longrightarrow> isRow (f r) \<Longrightarrow> rows (modifyLastRow f tb) = rs @ [f r]"
  by (cases tb) (auto simp: rows_def filter_modifyLastWhere)

lemma cells_modifyCell0:
  "cells row = c # ds \<Longrightarrow> isCell (f c) \<Longrightarrow> cells (modifyCell0 f row) = f c # ds"
  by (cases row) (auto simp: cells_def filter_modifyFirstWhere)

lemma isRow_modifyCell0: "isRow row \<Longrightarrow> isRow (modifyCell0 f row)"
  by (cases row) (auto simp: isRow_def isTag_def)

lemma deleteCell_1:
  assumes "cells row = c0 # c1 # ds" and "isRow row"
  shows "\<exists>row'. deleteCell 1 row = Inr row' \<and> cells row' = c0 # ds \<and> isRow row'"
  using assms
  by (cases row) (auto simp: deleteCell_def cells_def filter_removeNthWhere isRow_def isTag_def)

lemma querySelector_modifyDescendant:
  assumes "shallow p" and "querySelector p n = Some x" and "p (f x)"
  shows "querySelector p (modifyDescendant p f n) = Some (f x)"
  using assms by (cases n) (auto simp: querySelector_def findFirst_modifyFirst)

lemma getAttribute_modifyDescendant:
  "getAttribute name (modifyDescendant p f n) = getAttribute name n"
  by (cases n) (auto simp: getAttribute_def)

lemma isElement_modifyDescendant: "isElement (modifyDescendant p f n) = isElement n"
  by (cases n) (auto simp: isElement_def)

lemma isTag_modifyDescendant: "isTag t (modifyDescendant p f n) = isTag t n"
  by (cases n) (auto simp: isTag_def)

lemma querySelector_sat: "querySelector p n = Some x \<Longrightarrow> p x"
  by (auto simp: querySelector_def dest: findFirst_sat)

lemma rows_isRow: "rows tb = xs \<Longrightarrow> r \<in> set xs \<Longrightarrow> isRow r"
  by (auto simp: rows_def)

lemma newLastRow_last:
  "newLastRow t =
     (case querySelector tbodySel t of
        None \<Rightarrow> None
      | Some tb \<Rightarrow> if rows tb = [] then None else Some (last (rows tb)))"
  by (simp add: newLastRow_def split: option.splits list.splits)

lemma shape_newLastRow: "shape t rs r \<Longrightarrow> newLastRow t = Some r"
  by (auto simp: shape_def newLastRow_last)

lemma shape_isRow: "shape t rs r \<Longrightarrow> isRow r"
  by (auto simp: shape_def intro: rows_isRow [where r = r])

lemma shape_modifyNewLastRow:
  assumes "shape t rs r" and "isRow (f r)"
  shows "shape (modifyNewLastRow f t) rs (f r)"
proof -
  from assms(1) obtain tb where tb: "querySelector tbodySel t = Some tb" "rows tb = rs @ [r]"
    by (auto simp: shape_def)
  from tb(1) have "tbodySel tb" by (rule querySelector_sat)
  then have "tbodySel (modifyLastRow f tb)" by (rule tbodySel_modifyLastRow)
  with tb(1) have "querySelector tbodySel (modifyNewLastRow f t) = Some (modifyLastRow f tb)"
    unfolding modifyNewLastRow_def
    by (intro querySelector_modifyDescendant shallow_tbodySel)
  moreover from tb(2) assms(2) have "rows (modifyLastRow f tb) = rs @ [f r]"
    by (rule rows_modifyLastRow)
  ultimately show ?thesis by (auto simp: shape_def)
qed

lemma relocate_shape:
  assumes "querySelector tbodySel t = Some tb" and "rows tb = r0 # rs" and "\<not> h Relocate"
  shows "\<exists>t1. relocate h t = Inr (t1, [Relocate]) \<and> shape t1 rs r0"
proof -
  from assms(1) have "tbodySel tb" by (rule querySelector_sat)
  then have "tbodySel (appendChildFirstRow tb)" by (rule tbodySel_appendChildFirstRow)
  with assms(1) have "querySelector tbodySel (modifyDescendant tbodySel appendChildFirstRow t)
      = Some (appendChildFirstRow tb)"
    by (intro querySelector_modifyDescendant shallow_tbodySel)
  with assms(2,3) show ?thesis
    by (simp add: relocate_def shape_def rows_appendChildFirstRow)
qed

lemma shiftCells_shape:
  assumes "shape t rs r" and "cells r = c0 # c1 # ds" and "\<not> h DeleteCell"
  shows "\<exists>t2 r'. shiftCells h t = Inr (t2, [DeleteCell]) \<and> shape t2 rs r' \<and> cells r' = c0 # ds"
proof -
  from assms(1) have r: "isRow r" by (rule shape_isRow)
  from deleteCell_1 [OF assms(2) r] obtain r' where
    r': "deleteCell 1 r = Inr r'" "cells r' = c0 # ds" "isRow r'" by blast
  from assms(1) r'(3) have "shape (modifyNewLastRow (\<lambda>x. r') t) rs r'"
    by (rule shape_modifyNewLastRow)
  with assms r' show ?thesis
    by (auto simp: shiftCells_def shape_newLastRow)
qed

text \<open>The label cell after the style edit, and its marker.\<close>

lemma isCell_modifyDescendant: "isCell (modifyDescendant p f c) = isCell c"
  by (simp add: isCell_def isTag_modifyDescendant)

lemma spanSel_setAttribute_style: "spanSel sp \<Longrightarrow> spanSel (setAttribute ''style'' v sp)"
proof (cases sp)
  case (Element t a cs)
  have "map_of (setAttr ''style'' v a) ''aria-hidden'' = map_of a ''aria-hidden''"
    by (induction a) auto
  moreover assume "spanSel sp"
  ultimately show ?thesis using Element by (simp add: spanSel_def isTag_def getAttribute_def)
qed (simp_all add: spanSel_def isTag_def)

lemma fixLabel_shape:
  assumes "shape t rs r" and "cells r = c0 # ds"
    and "querySelector spanSel c0 = Some sp" and "getAttribute ''style'' sp = Some st"
    and "\<not> h StyleEdit"
  shows "\<exists>t3 r'. fixLabel h t = Inr (t3, [StyleEdit]) \<and> shape t3 rs r' \<and>
           cells r' =
             modifyDescendant spanSel
               (setAttribute ''style'' (replace (js ''Circle(0)'') (js ''None'') st)) c0 # ds"
proof -
  let ?g = "modifyDescendant spanSel
              (setAttribute ''style'' (replace (js ''Circle(0)'') (js ''None'') st))"
  from assms(2) have "c0 \<in> set (cells r)" by simp
  then have c0: "isCell c0" by (simp add: cells_def)
  then have "isCell (?g c0)" by (simp add: isCell_modifyDescendant)
  with assms(2) have cells: "cells (modifyCell0 ?g r) = ?g c0 # ds" by (rule cells_modifyCell0)
  from assms(1) have "isRow r" by (rule shape_isRow)
  then have "isRow (modifyCell0 ?g r)" by (rule isRow_modifyCell0)
  with assms(1) have "shape (modifyNewLastRow (modifyCell0 ?g) t) rs (modifyCell0 ?g r)"
    by (rule shape_modifyNewLastRow)
  with assms cells show ?thesis
    by (auto simp: fixLabel_def hasAttribute_def shape_newLastRow Let_def)
qed

lemma fixLabel_skip:
  assumes "shape t rs r" and "cells r = c0 # ds"
    and "querySelector spanSel c0 = None \<or>
         (\<exists>sp. querySelector spanSel c0 = Some sp \<and> getAttribute ''style'' sp = None)"
  shows "fixLabel h t = Inr (t, [])"
  using assms by (auto simp: fixLabel_def hasAttribute_def shape_newLastRow)

lemma shape_gridRows: "shape t rs r \<Longrightarrow> gridRows t = rs @ [r]"
  by (auto simp: shape_def gridRows_def)

lemma querySelector_setAttribute: "querySelector p (setAttribute n v t) = querySelector p t"
  by (cases t) (simp_all add: querySelector_def)

lemma shape_setAttribute: "shape (setAttribute n v t) rs r = shape t rs r"
  by (simp add: shape_def querySelector_setAttribute)

lemma map_of_setAttr: "map_of (setAttr n v a) = (map_of a)(n \<mapsto> v)"
  by (induction a) (auto simp: fun_eq_iff)

lemma getAttribute_setAttribute:
  "isElement t \<Longrightarrow> getAttribute m (setAttribute n v t) = (if m = n then Some v else getAttribute m t)"
  by (cases t) (simp_all add: getAttribute_def isElement_def map_of_setAttr)

lemma textContent_setAttribute: "textContent (setAttribute n v t) = textContent t"
  by (cases t) simp_all

lemma spanSel_isElement: "spanSel sp \<Longrightarrow> isElement sp"
  by (cases sp) (simp_all add: spanSel_def isTag_def isElement_def)

lemma fixLabel_cases:
  assumes "shape t rs r" and "cells r = c0 # ds"
  shows "(h StyleEdit \<and> fixLabel h t = Inl (HostError StyleEdit)) \<or>
         (\<exists>t3 r' m. fixLabel h t = Inr (t3, m) \<and> shape t3 rs r' \<and> Relocate \<notin> set m \<and>
            cells r' = fixedLabelCell c0 # ds \<and> (\<forall>n. getAttribute n t3 = getAttribute n t) \<and>
            isElement t3 = isElement t \<and>
            (\<not> h StyleEdit \<longrightarrow> m = (if labelStyle r = None then [] else [StyleEdit])))"
proof (cases "querySelector spanSel c0")
  case None
  with assms have "fixLabel h t = Inr (t, [])" by (intro fixLabel_skip) auto
  with assms None show ?thesis
    by (auto simp: fixedLabelCell_def labelStyle_def labelMarker_def)
next
  case (Some sp)
  show ?thesis
  proof (cases "getAttribute ''style'' sp")
    case None
    with assms Some have "fixLabel h t = Inr (t, [])" by (intro fixLabel_skip) auto
    with assms None Some show ?thesis
      by (auto simp: fixedLabelCell_def labelStyle_def labelMarker_def)
  next
    case st: (Some st)
    show ?thesis
    proof (cases "h StyleEdit")
      case True
      with assms Some st show ?thesis
        by (simp add: fixLabel_def hasAttribute_def shape_newLastRow Let_def)
    next
      case False
      from fixLabel_shape [where h = h, OF assms Some st False] obtain t3 r' where
        *: "fixLabel h t = Inr (t3, [StyleEdit])" "shape t3 rs r'"
           "cells r' = fixedLabelCell c0 # ds"
        by (auto simp: fixedLabelCell_def Some st)
      from * assms Some st False have "t3 = modifyNewLastRow
            (modifyCell0 (modifyDescendant spanSel
               (setAttribute ''style'' (replace (js ''Circle(0)'') (js ''None'') st)))) t"
        by (simp add: fixLabel_def hasAttribute_def shape_newLastRow Let_def)
      then have "(\<forall>n. getAttribute n t3 = getAttribute n t) \<and> isElement t3 = isElement t"
        by (simp add: modifyNewLastRow_def getAttribute_modifyDescendant isElement_modifyDescendant)
      with * False assms Some st show ?thesis
        by (auto simp: labelStyle_def labelMarker_def)
    qed
  qed
qed

lemma shiftCells_cases:
  assumes "shape t rs r" and "cells r = c0 # c1 # ds"
  shows "(h DeleteCell \<and> shiftCells h t = Inl (HostError DeleteCell)) \<or>
         (\<not> h DeleteCell \<and>
          (\<exists>t2 r'. shiftCells h t = Inr (t2, [DeleteCell]) \<and> shape t2 rs r' \<and>
             cells r' = c0 # ds \<and> (\<forall>n. getAttribute n t2 = getAttribute n t) \<and>
             isElement t2 = isElement t))"
proof (cases "h DeleteCell")
  case True
  with assms show ?thesis by (simp add: shiftCells_def shape_newLastRow)
next
  case False
  from shiftCells_shape [where h = h, OF assms False] obtain t2 r' where
    *: "shiftCells h t = Inr (t2, [DeleteCell])" "shape t2 rs r'" "cells r' = c0 # ds" by blast
  from assms(1) have "isRow r" by (rule shape_isRow)
  from deleteCell_1 [OF assms(2) this] obtain r2 where "deleteCell 1 r = Inr r2" by blast
  with * assms False have "t2 = modifyNewLastRow (\<lambda>x. r2) t"
    by (simp add: shiftCells_def shape_newLastRow)
  then have "(\<forall>n. getAttribute n t2 = getAttribute n t) \<and> isElement t2 = isElement t"
    by (simp add: modifyNewLastRow_def getAttribute_modifyDescendant isElement_modifyDescendant)
  with * False show ?thesis by blast
qed

lemma relocate_cases:
  assumes "querySelector tbodySel t = Some tb" and "rows tb = r0 # rs"
  shows "(h Relocate \<and> relocate h t = Inl (HostError Relocate)) \<or>
         (\<not> h Relocate \<and>
          (\<exists>t1. relocate h t = Inr (t1, [Relocate]) \<and> shape t1 rs r0 \<and>
             (\<forall>n. getAttribute n t1 = getAttribute n t) \<and> isElement t1 = isElement t))"
proof (cases "h Relocate")
  case True
  then show ?thesis by (simp add: relocate_def)
next
  case False
  from relocate_shape [where h = h, OF assms False] obtain t1 where
    *: "relocate h t = Inr (t1, [Relocate])" "shape t1 rs r0" by blast
  with False have "t1 = modifyDescendant tbodySel appendChildFirstRow t"
    by (simp add: relocate_def)
  then have "(\<forall>n. getAttribute n t1 = getAttribute n t) \<and> isElement t1 = isElement t"
    by (simp add: getAttribute_modifyDescendant isElement_modifyDescendant)
  with * False show ?thesis by blast
qed

lemma corrected_setMarker: "isElement t \<Longrightarrow> corrected (setAttribute markerAttr (js ''true'') t)"
  by (simp add: corrected_def getAttribute_setAttribute)

lemma isElement_setAttribute: "isElement (setAttribute n v t) = isElement t"
  by (cases t) (simp_all add: isElement_def)

lemma tryBlock_cases:
  assumes tb: "querySelector tbodySel t = Some tb" and rows: "rows tb = r0 # rs"
    and cells: "cells r0 = c0 # c1 # ds" and el: "isElement t" and nc: "\<not> corrected t"
  shows "(h Relocate \<and> tryBlock h t = (t, [], Some (HostError Relocate))) \<or>
         (\<not> h Relocate \<and>
          (\<exists>t' ms e r'. tryBlock h t = (t', Relocate # ms, e) \<and> Relocate \<notin> set ms \<and>
             shape t' rs r' \<and> isElement t' \<and>
             (case e of
                None \<Rightarrow> corrected t' \<and> cells r' = fixedLabelCell c0 # ds \<and>
                         (\<exists>m. ms = DeleteCell # m @ [Mark] \<and>
                              (\<not> h StyleEdit \<longrightarrow>
                                 m = (if labelStyle r0 = None then [] else [StyleEdit])))
              | Some x \<Rightarrow> \<not> corrected t' \<and> (\<exists>s. x = HostError s \<and> h s))))"
proof (cases "h Relocate")
  case True
  then show ?thesis by (simp add: tryBlock_def relocate_def)
next
  case nr: False
  with relocate_cases [where h = h, OF tb rows] obtain t1 where
    t1: "relocate h t = Inr (t1, [Relocate])" "shape t1 rs r0"
        "\<forall>n. getAttribute n t1 = getAttribute n t" "isElement t1 = isElement t"
    by blast
  show ?thesis
  proof (cases "h DeleteCell")
    case True
    with shiftCells_cases [where h = h, OF t1(2) cells]
    have "shiftCells h t1 = Inl (HostError DeleteCell)" by blast
    with t1 nr True el nc show ?thesis
      by (auto simp: tryBlock_def corrected_def)
  next
    case nd: False
    with shiftCells_cases [where h = h, OF t1(2) cells] obtain t2 r2 where
      t2: "shiftCells h t1 = Inr (t2, [DeleteCell])" "shape t2 rs r2" "cells r2 = c0 # ds"
          "\<forall>n. getAttribute n t2 = getAttribute n t1" "isElement t2 = isElement t1"
      by blast
    have ls: "labelStyle r2 = labelStyle r0"
      using cells t2(3) by (simp add: labelStyle_def labelMarker_def)
    from fixLabel_cases [where h = h, OF t2(2,3)]
    consider (fail) "h StyleEdit" "fixLabel h t2 = Inl (HostError StyleEdit)"
      | (ok) t3 r3 m where "fixLabel h t2 = Inr (t3, m)" "shape t3 rs r3" "Relocate \<notin> set m"
          "cells r3 = fixedLabelCell c0 # ds" "\<forall>n. getAttribute n t3 = getAttribute n t2"
          "isElement t3 = isElement t2"
          "\<not> h StyleEdit \<longrightarrow> m = (if labelStyle r2 = None then [] else [StyleEdit])"
      by blast
    then show ?thesis
    proof cases
      case fail
      with t1 t2 nr el nc show ?thesis
        by (auto simp: tryBlock_def corrected_def)
    next
      case ok
      show ?thesis
      proof (cases "h Mark")
        case True
        with t1 t2 ok nr el nc show ?thesis
          by (auto simp: tryBlock_def corrected_def mark_def)
      next
        case False
        have "tryBlock h t =
                (setAttribute markerAttr (js ''true'') t3, Relocate # DeleteCell # m @ [Mark], None)"
          using t1(1) t2(1) ok(1) False by (simp add: tryBlock_def mark_def)
        moreover have "shape (setAttribute markerAttr (js ''true'') t3) rs r3"
          using ok(2) by (simp add: shape_setAttribute)
        moreover have "isElement t3" using ok(6) t2(5) t1(4) el by simp
        ultimately show ?thesis
          using nr ok(3,4,7) ls
          by (auto simp: corrected_setMarker isElement_setAttribute)
      qed
    qed
  qed
qed

section \<open>The guards decide whether the try block runs\<close>

lemma startWeekOnMonday_guard_fails:
  assumes "isElement table" and "\<not> guardsPass table"
  shows "startWeekOnMonday h table = returned table"
  using assms
  unfolding startWeekOnMonday_def guardsPass_def row0_def sundayRow_def rowLabel_def
  by (auto split: option.splits list.splits simp: Suc_le_eq)

lemma startWeekOnMonday_guard_passes:
  assumes "guardsPass table"
  shows "startWeekOnMonday h table =
           (case tryBlock h table of
              (table', ms, None) \<Rightarrow>
                \<lparr>dom = table', console = [], escaped = None, mutations = ms\<rparr>
            | (table', ms, Some err) \<Rightarrow>
                \<lparr>dom = table', console = [(errorPrefix, err)], escaped = None, mutations = ms\<rparr>)"
  using assms
  unfolding startWeekOnMonday_def guardsPass_def row0_def sundayRow_def rowLabel_def
  by (auto split: option.splits list.splits simp: Suc_le_eq)

text \<open>
  C3. A table whose first \<open>tbody\<close> does not have exactly 7 rows, or whose row 0 is not labelled
  \<open>Sun\<close>, or whose row 0 has fewer than 2 cells, is returned as it was, whatever the host does:
  no row, cell, style or attribute changes, the marker is not set, nothing is logged and no
  host mutation is made.
\<close>

theorem guard_failure_leaves_grid_unmodified:
  assumes "isElement table"
    and "querySelector tbodySel table = Some tbody"
    and "length (rows tbody) \<noteq> 7 \<or>
         (\<exists>r. row0 tbody = Some r \<and> (rowLabel r \<noteq> Some (js ''Sun'') \<or> length (cells r) < 2))"
  shows "startWeekOnMonday h table = returned table"
proof -
  from assms(2,3) have "\<not> guardsPass table"
    unfolding guardsPass_def sundayRow_def by (auto split: option.splits)
  with assms(1) show ?thesis by (rule startWeekOnMonday_guard_fails)
qed

theorem guard_failure_leaves_grid_unmodified_witness:
  "startWeekOnMonday hostOK sixRowTable = returned sixRowTable \<and>
   startWeekOnMonday hostOK eightRowTable = returned eightRowTable \<and>
   startWeekOnMonday hostOK mondayFirstTable = returned mondayFirstTable \<and>
   startWeekOnMonday hostOK shortRowTable = returned shortRowTable \<and>
   \<not> corrected sixRowTable"
proof -
  have e6: "isElement sixRowTable" by code_simp
  have q6: "querySelector tbodySel sixRowTable = Some (hd (childNodes sixRowTable))" by code_simp
  have l6: "length (rows (hd (childNodes sixRowTable))) = 6" by code_simp
  have e8: "isElement eightRowTable" by code_simp
  have q8: "querySelector tbodySel eightRowTable = Some (hd (childNodes eightRowTable))" by code_simp
  have l8: "length (rows (hd (childNodes eightRowTable))) = 8" by code_simp
  have em: "isElement mondayFirstTable" by code_simp
  have qm: "querySelector tbodySel mondayFirstTable = Some (hd (childNodes mondayFirstTable))" by code_simp
  have rm: "row0 (hd (childNodes mondayFirstTable)) = Some (dayRow ''Mon'' shownStyle)" by code_simp
  have lm: "rowLabel (dayRow ''Mon'' shownStyle) = Some (js ''Mon'')" by code_simp
  have ne: "js ''Mon'' \<noteq> js ''Sun''" by code_simp
  have es: "isElement shortRowTable" by code_simp
  have qs: "querySelector tbodySel shortRowTable = Some (hd (childNodes shortRowTable))" by code_simp
  have rs: "row0 (hd (childNodes shortRowTable)) = Some (Element ''tr'' [] [Element ''td'' [] [daySpan ''Sun'' hiddenStyle]])" by code_simp
  have ls: "length (cells (Element ''tr'' [] [Element ''td'' [] [daySpan ''Sun'' hiddenStyle]])) = 1" by code_simp
  have nc: "\<not> corrected sixRowTable" by code_simp
  show ?thesis
    using guard_failure_leaves_grid_unmodified [OF e6 q6, of hostOK]
          guard_failure_leaves_grid_unmodified [OF e8 q8, of hostOK]
          guard_failure_leaves_grid_unmodified [OF em qm, of hostOK]
          guard_failure_leaves_grid_unmodified [OF es qs, of hostOK]
          l6 l8 rm lm ne rs ls nc
    by simp
qed

section \<open>The successful run\<close>

lemma guardsPassE:
  assumes "guardsPass t"
  obtains tb r0 rs c0 c1 ds where
    "querySelector tbodySel t = Some tb" "rows tb = r0 # rs" "length rs = 6"
    "cells r0 = c0 # c1 # ds" "isElement t" "\<not> corrected t" "rowLabel r0 = Some (js ''Sun'')"
proof -
  from assms obtain tb where tb: "querySelector tbodySel t = Some tb" "length (rows tb) = 7"
    and el: "isElement t" "\<not> corrected t"
    by (auto simp: guardsPass_def split: option.splits)
  from assms tb obtain r0 where r0: "row0 tb = Some r0" "sundayRow r0"
    by (auto simp: guardsPass_def split: option.splits)
  from r0(1) obtain rs where rs: "rows tb = r0 # rs"
    by (auto simp: row0_def split: list.splits)
  with tb(2) have len: "length rs = 6" by simp
  from r0(2) have "2 \<le> length (cells r0)" "rowLabel r0 = Some (js ''Sun'')"
    by (simp_all add: sundayRow_def)
  then obtain c0 c1 ds where "cells r0 = c0 # c1 # ds"
    by (cases "cells r0"; cases "tl (cells r0)") auto
  with tb(1) rs len el \<open>rowLabel r0 = Some (js ''Sun'')\<close> show thesis by (auto intro: that)
qed

lemma hostOK_False [simp]: "\<not> hostOK s"
  by (simp add: hostOK_def)

lemma querySelector_fixedLabelCell:
  "querySelector spanSel (fixedLabelCell c) =
     (case querySelector spanSel c of
        None \<Rightarrow> None
      | Some sp \<Rightarrow>
          (case getAttribute ''style'' sp of
             None \<Rightarrow> Some sp
           | Some st \<Rightarrow>
               Some (setAttribute ''style'' (replace (js ''Circle(0)'') (js ''None'') st) sp)))"
proof (cases "querySelector spanSel c")
  case None
  then show ?thesis by (simp add: fixedLabelCell_def)
next
  case (Some sp)
  then have sel: "spanSel sp" by (rule querySelector_sat)
  show ?thesis
  proof (cases "getAttribute ''style'' sp")
    case None
    with Some show ?thesis by (simp add: fixedLabelCell_def)
  next
    case st: (Some st)
    from sel have "spanSel (setAttribute ''style'' (replace (js ''Circle(0)'') (js ''None'') st) sp)"
      by (rule spanSel_setAttribute_style)
    with Some have "querySelector spanSel
        (modifyDescendant spanSel
           (setAttribute ''style'' (replace (js ''Circle(0)'') (js ''None'') st)) c) =
        Some (setAttribute ''style'' (replace (js ''Circle(0)'') (js ''None'') st) sp)"
      by (intro querySelector_modifyDescendant shallow_spanSel)
    with Some st show ?thesis by (simp add: fixedLabelCell_def)
  qed
qed

lemma rowLabel_fixed:
  assumes "cells r' = fixedLabelCell c0 # ds'" and "cells r0 = c0 # ds"
  shows "rowLabel r' = rowLabel r0"
  using assms
  by (simp add: rowLabel_def querySelector_fixedLabelCell textContent_setAttribute
           split: option.splits)

lemma labelStyle_fixed:
  assumes "cells r' = fixedLabelCell c0 # ds'" and "cells r0 = c0 # ds"
  shows "labelStyle r' = map_option (replace (js ''Circle(0)'') (js ''None'')) (labelStyle r0)"
proof (cases "querySelector spanSel c0")
  case None
  with assms show ?thesis
    by (simp add: labelStyle_def labelMarker_def querySelector_fixedLabelCell)
next
  case (Some sp)
  then have "isElement sp" by (intro spanSel_isElement querySelector_sat)
  with assms Some show ?thesis
    by (simp add: labelStyle_def labelMarker_def querySelector_fixedLabelCell
          getAttribute_setAttribute split: option.splits)
qed

text \<open>The successful run on a standard host.\<close>

lemma realign_hostOK:
  assumes "guardsPass t"
  obtains r0 rs c0 c1 ds t' r' ms where
    "gridRows t = r0 # rs" "length rs = 6" "cells r0 = c0 # c1 # ds"
    "rowLabel r0 = Some (js ''Sun'')"
    "startWeekOnMonday hostOK t = \<lparr>dom = t', console = [], escaped = None, mutations = ms\<rparr>"
    "gridRows t' = rs @ [r']" "cells r' = fixedLabelCell c0 # ds" "corrected t'" "isElement t'"
proof -
  from assms obtain tb r0 rs c0 c1 ds where
    g: "querySelector tbodySel t = Some tb" "rows tb = r0 # rs" "length rs = 6"
       "cells r0 = c0 # c1 # ds" "isElement t" "\<not> corrected t" "rowLabel r0 = Some (js ''Sun'')"
    by (rule guardsPassE)
  from tryBlock_cases [where h = hostOK, OF g(1,2,4,5,6)]
  obtain t' ms e r' where
    tb: "tryBlock hostOK t = (t', Relocate # ms, e)" "shape t' rs r'" "isElement t'"
      "case e of None \<Rightarrow> corrected t' \<and> cells r' = fixedLabelCell c0 # ds \<and>
                         (\<exists>m. ms = DeleteCell # m @ [Mark] \<and>
                              (\<not> hostOK StyleEdit \<longrightarrow>
                                 m = (if labelStyle r0 = None then [] else [StyleEdit])))
       | Some x \<Rightarrow> \<not> corrected t' \<and> (\<exists>s. x = HostError s \<and> hostOK s)"
    by auto
  from tb(4) have e: "e = None" by (cases e) auto
  with tb(4) have c: "corrected t'" "cells r' = fixedLabelCell c0 # ds" by auto
  from assms tb(1) e have
    "startWeekOnMonday hostOK t =
       \<lparr>dom = t', console = [], escaped = None, mutations = Relocate # ms\<rparr>"
    by (simp add: startWeekOnMonday_guard_passes)
  moreover from g(1,2) have "gridRows t = r0 # rs" by (simp add: gridRows_def)
  moreover from tb(2) have "gridRows t' = rs @ [r']" by (rule shape_gridRows)
  ultimately show thesis using g(3,4,7) c tb(3) by (auto intro: that)
qed

section \<open>Row order\<close>




section \<open>Cell counts\<close>

text \<open>
  C2. For a table that passes the four guards, the rows after the realignment are the former
  rows 1 to 6, identical, followed by the relocated row; that row keeps its label cell (with
  the label text it had, only the marker's style rewritten) and its data cells but the first,
  so it has exactly one cell fewer. Step 2 on a last row with at most one cell changes nothing
  and calls no \<open>deleteCell\<close>: it succeeds even on a host whose \<open>deleteCell\<close> raises.
\<close>

theorem cell_counts_after_realignment:
  "(guardsPass table \<longrightarrow>
      (\<exists>r0 rs r' c0 c1 ds.
         gridRows table = r0 # rs \<and> cells r0 = c0 # c1 # ds \<and>
         gridRows (dom (startWeekOnMonday hostOK table)) = rs @ [r'] \<and>
         cells r' = fixedLabelCell c0 # ds \<and>
         Suc (length (cells r')) = length (cells r0) \<and>
         rowLabel r' = rowLabel r0)) \<and>
   (\<forall>row. newLastRow t = Some row \<and> length (cells row) \<le> 1 \<longrightarrow> shiftCells h t = Inr (t, []))"
proof (intro conjI impI allI)
  assume "guardsPass table"
  then obtain r0 rs c0 c1 ds t' r' ms where
    *: "gridRows table = r0 # rs" "cells r0 = c0 # c1 # ds"
       "startWeekOnMonday hostOK table =
          \<lparr>dom = t', console = [], escaped = None, mutations = ms\<rparr>"
       "gridRows t' = rs @ [r']" "cells r' = fixedLabelCell c0 # ds"
    by (rule realign_hostOK)
  from *(5,2) have "rowLabel r' = rowLabel r0" by (rule rowLabel_fixed)
  with * show "\<exists>r0 rs r' c0 c1 ds.
         gridRows table = r0 # rs \<and> cells r0 = c0 # c1 # ds \<and>
         gridRows (dom (startWeekOnMonday hostOK table)) = rs @ [r'] \<and>
         cells r' = fixedLabelCell c0 # ds \<and>
         Suc (length (cells r')) = length (cells r0) \<and>
         rowLabel r' = rowLabel r0"
    by auto
next
  fix row
  assume "newLastRow t = Some row \<and> length (cells row) \<le> 1"
  then show "shiftCells h t = Inr (t, [])" by (simp add: shiftCells_def)
qed

theorem cell_counts_after_realignment_witness:
  "guardsPass createTestTable \<and>
   map (\<lambda>r. length (cells r)) (gridRows createTestTable) = [3, 3, 3, 3, 3, 3, 3] \<and>
   map (\<lambda>r. length (cells r)) (gridRows (dom (startWeekOnMonday hostOK createTestTable))) =
     [3, 3, 3, 3, 3, 3, 2] \<and>
   newLastRow oneCellTable = Some (Element ''tr'' [] [Element ''td'' [] []]) \<and>
   shiftCells (failAt DeleteCell) oneCellTable = Inr (oneCellTable, [])"
proof -
  have g: "guardsPass createTestTable" by code_simp
  have b: "map (\<lambda>r. length (cells r)) (gridRows createTestTable) = [3, 3, 3, 3, 3, 3, 3]"
    by code_simp
  have n: "newLastRow oneCellTable = Some (Element ''tr'' [] [Element ''td'' [] []])"
    by code_simp
  have c: "length (cells (Element ''tr'' [] [Element ''td'' [] []])) \<le> 1" by code_simp
  from cell_counts_after_realignment
         [of createTestTable oneCellTable "failAt DeleteCell"] g
  obtain r0 rs r' c0 c1 ds where
    *: "gridRows createTestTable = r0 # rs" "cells r0 = c0 # c1 # ds"
       "gridRows (dom (startWeekOnMonday hostOK createTestTable)) = rs @ [r']"
       "cells r' = fixedLabelCell c0 # ds"
       "Suc (length (cells r')) = length (cells r0)"
    and s: "\<forall>row. newLastRow oneCellTable = Some row \<and> length (cells row) \<le> 1 \<longrightarrow>
              shiftCells (failAt DeleteCell) oneCellTable = Inr (oneCellTable, [])"
    by blast
  from b *(1) have "length (cells r0) = 3" "map (\<lambda>r. length (cells r)) rs = [3, 3, 3, 3, 3, 3]"
    by simp_all
  with *(3,5) have
    "map (\<lambda>r. length (cells r)) (gridRows (dom (startWeekOnMonday hostOK createTestTable))) =
       [3, 3, 3, 3, 3, 3, 2]"
    by simp
  with g b n c s show ?thesis by simp
qed

section \<open>Idempotence\<close>

text \<open>
  C4. On a table element, a second invocation after a first one on a standard host returns
  the table the first one left, with no mutation and nothing logged, whatever the host does
  then; when the first invocation passed the guards it has set the marker.
\<close>

theorem realign_twice_same_as_once:
  assumes "isElement table"
  shows "startWeekOnMonday h (dom (startWeekOnMonday hostOK table)) =
           returned (dom (startWeekOnMonday hostOK table)) \<and>
         (guardsPass table \<longrightarrow> corrected (dom (startWeekOnMonday hostOK table)))"
proof (cases "guardsPass table")
  case False
  with assms have "startWeekOnMonday hostOK table = returned table"
    by (rule startWeekOnMonday_guard_fails)
  moreover from assms False have "startWeekOnMonday h table = returned table"
    by (rule startWeekOnMonday_guard_fails)
  ultimately show ?thesis using False by (simp add: returned_def)
next
  case True
  then obtain t' ms where
    *: "startWeekOnMonday hostOK table =
          \<lparr>dom = t', console = [], escaped = None, mutations = ms\<rparr>"
       "corrected t'" "isElement t'"
    by (rule realign_hostOK)
  from *(2) have "\<not> guardsPass t'" by (simp add: guardsPass_def)
  with *(3) have "startWeekOnMonday h t' = returned t'" by (rule startWeekOnMonday_guard_fails)
  with * show ?thesis by simp
qed

theorem realign_twice_same_as_once_witness:
  "isElement createTestTable \<and> guardsPass createTestTable \<and>
   corrected (dom (startWeekOnMonday hostOK createTestTable)) \<and>
   dom (startWeekOnMonday hostOK (dom (startWeekOnMonday hostOK createTestTable))) =
     dom (startWeekOnMonday hostOK createTestTable)"
proof -
  have e: "isElement createTestTable" by code_simp
  have g: "guardsPass createTestTable" by code_simp
  from realign_twice_same_as_once [OF e, of hostOK] e g show ?thesis
    by (simp add: returned_def)
qed

section \<open>Exceptions\<close>



section \<open>Retries\<close>







section \<open>The style of the Sunday label\<close>

text \<open>
  C5. \<open>replace\<close> with a string pattern rewrites the first occurrence only. With the style
  \<open>clip-path: Circle(0); -webkit-clip-path: Circle(0);\<close> on the Sunday label, the style after
  the realignment is \<open>clip-path: None; -webkit-clip-path: Circle(0);\<close>, which still includes
  the directive.
\<close>

theorem clip_directive_survives:
  "guardsPass twoClipTable \<and>
   labelStyle (hd (gridRows twoClipTable)) =
     Some (js ''clip-path: Circle(0); -webkit-clip-path: Circle(0);'') \<and>
   labelStyle (last (gridRows (dom (startWeekOnMonday hostOK twoClipTable)))) =
     Some (js ''clip-path: None; -webkit-clip-path: Circle(0);'') \<and>
   includesStr (js ''Circle(0)'') (js ''clip-path: None; -webkit-clip-path: Circle(0);'')"
  by code_simp

section \<open>Evaluating histories of the watcher\<close>

lemmas watcher_eval =
  react_def observeTable_def loaded_def handleMutations_def setTimeout_def debounce_def
  observe_def elapseTo.simps nextDue_def fire_def runCallback_def giveUp_def disconnect_def
  later_def deliver_def observerCallback_def executedFunction_def clearTimeout_def timeoutOf_def
  giveUpDelay_def debounceWait_def subscriptions_def Let_def

section \<open>Starting the watcher\<close>

text \<open>
  C7. Calling \<open>observeTable\<close> twice registers two subscriptions in \<open>src/extension/content.js\<close>:
  that variant keeps no handle of a running watcher.
\<close>

theorem observeTable_content_counterexample:
  "subscriptions (observeTable ContentJs hostOK (loaded None)) = 1 \<and>
   subscriptions (observeTable ContentJs hostOK (observeTable ContentJs hostOK (loaded None))) = 2"
  by code_simp

text \<open>
  C7, as amended. In \<open>part_000\<close>, which keeps the handle \<open>activeObserver\<close>, \<open>observeTable\<close> is
  idempotent: a second call leaves the state of the first, with the same number of
  subscriptions, and a call while a watcher is running changes nothing.
\<close>

theorem observeTable_idempotent:
  "observeTable Part0 h (observeTable Part0 h w) = observeTable Part0 h w \<and>
   subscriptions (observeTable Part0 h (observeTable Part0 h w)) =
     subscriptions (observeTable Part0 h w) \<and>
   (activeObserver w \<noteq> None \<longrightarrow> observeTable Part0 h w = w)"
proof -
  have "activeObserver (observeTable Part0 h w) \<noteq> None"
    by (simp add: observeTable_def setTimeout_def observe_def debounce_def Let_def)
  then have "observeTable Part0 h (observeTable Part0 h w) = observeTable Part0 h w"
    by (simp add: observeTable_def [of Part0 h "observeTable Part0 h w"])
  then show ?thesis by (simp add: observeTable_def)
qed

theorem observeTable_idempotent_witness:
  "activeObserver started = Some 0 \<and> observeTable Part0 hostOK started = started \<and>
   subscriptions started = 1"
proof -
  have a: "activeObserver started = Some 0" by (simp add: started_def watcher_eval)
  have s: "subscriptions started = 1" by (simp add: started_def watcher_eval)
  from observeTable_idempotent [of hostOK started] a s show ?thesis by simp
qed

section \<open>Debouncing\<close>






lemma giveUp_fields [simp]:
  "timers (giveUp w) = timers w" "nextTimer (giveUp w) = nextTimer w"
  "debouncers (giveUp w) = debouncers w" "attempts (giveUp w) = attempts w"
  "now (giveUp w) = now w" "grid (giveUp w) = grid w"
  by (simp_all add: giveUp_def disconnect_def split: option.splits)

lemma handleMutations_fields [simp]:
  "nextTimer (handleMutations h w) = nextTimer w"
  "debouncers (handleMutations h w) = debouncers w"
  "now (handleMutations h w) = now w"
  "observers (handleMutations h w) = observers w"
  "activeObserver (handleMutations h w) = activeObserver w"
  "attempts (handleMutations h w) = attempts w @ [grid w \<noteq> None]"
  by (simp_all add: handleMutations_def Let_def split: option.splits)

lemma clearTimeout_fields [simp]:
  "nextTimer (clearTimeout t w) = nextTimer w"
  "debouncers (clearTimeout t w) = debouncers w"
  "now (clearTimeout t w) = now w"
  "attempts (clearTimeout t w) = attempts w"
  "grid (clearTimeout t w) = grid w"
  by (simp_all add: clearTimeout_def split: option.splits)

lemma timeoutOf_cong:
  "debouncers w' = debouncers w \<Longrightarrow> timeoutOf k w' = timeoutOf k w"
  by (simp add: timeoutOf_def)




lemma armed_now [simp]: "armed k D (w\<lparr>now := n\<rparr>) = armed k D w"
  by (simp add: armed_def timersOK_def pendingChecks_def timeoutOf_def)











section \<open>The give-up timer\<close>

lemma grid_handleMutations [simp]: "grid (handleMutations h w) = None \<longleftrightarrow> grid w = None"
  by (simp add: handleMutations_def Let_def split: option.splits)










lemma watching_now [simp]: "watching T (w\<lparr>now := n\<rparr>) = watching T w"
  by (simp add: watching_def tidy_def timersOK_def giveUps_def)

lemma watching_grid [simp]: "watching T (w\<lparr>grid := g\<rparr>) = watching T w"
  by (simp add: watching_def tidy_def timersOK_def giveUps_def)












end
